theory Spec2Isabelle
  imports Main "HOL-Library.Word" "HOL-Library.Multiset" "HOL-Library.AList"
begin

section \<open>Data model\<close>

text \<open>
  A Go \<^verbatim>\<open>[]byte\<close> is a list of 8-bit words; \<^verbatim>\<open>len(x) == 0\<close> holds for the nil slice
  and for the empty slice alike, and both are the empty list here.
\<close>

type_synonym bytes = "8 word list"

text \<open>
  Modelled from the spec: the package \<^verbatim>\<open>representations\<close> that declares Transaction and Block
  is not among the sources. Section 3 of the specification gives a transaction an id, a
  sender (empty for a coinbase transaction), a recipient, an amount and a free-text memo;
  the chain manager itself reads only \<^verbatim>\<open>ID\<close>.
\<close>

record Transaction =
  ID :: bytes
  From :: string
  To :: string
  Amount :: int
  Memo :: string

text \<open>
  Modelled from the spec: a block has a hash, a previous hash, a timestamp and its
  transactions. The chain manager reads \<^verbatim>\<open>Hash\<close>, \<^verbatim>\<open>PrevHash\<close> and \<^verbatim>\<open>Timestamp\<close>.
  The timestamp is a signed 64-bit integer in Go; it is only compared, so it is an
  \<^typ>\<open>int\<close> here.
\<close>

record Block =
  Timestamp :: int
  Hash :: bytes
  PrevHash :: bytes
  Transactions :: "Transaction list"

text \<open>The Go zero value \<^verbatim>\<open>reps.Block{}\<close>: every field nil or zero.\<close>

definition zeroBlock :: Block where
  "zeroBlock = \<lparr>Timestamp = 0, Hash = [], PrevHash = [], Transactions = []\<rparr>"

text \<open>
  Go errors are values carrying a message. The collaborators produce errors of their own
  (storage errors, a rejected transfer); the chain manager builds two with
  \<^verbatim>\<open>fmt.Errorf\<close>: the one of \<^verbatim>\<open>AddToBlockChain\<close> that embeds the message of the failed
  last-block read, and the fixed one of \<^verbatim>\<open>GetGenesisBlock\<close>.
\<close>

datatype error =
    CollaboratorError string
  | NotInitialized string
  | GenesisNotFound

fun errorString :: "error \<Rightarrow> string" where
  "errorString (CollaboratorError m) = m"
| "errorString (NotInitialized m) =
     ''error getting last block. Blockchain probably has not been created: '' @ m"
| "errorString GenesisNotFound =
     ''no genesis block exists, please create a blockchain first''"

section \<open>Collaborators\<close>

text \<open>
  The struct \<^verbatim>\<open>blockchainService\<close> holds its collaborators behind Go interfaces, so the
  chain manager is parametric in them. An interface is a record of functions. The
  repository owns the only mutable state, of type \<open>'s\<close>: a write takes the store and
  returns the store it leaves behind, a read only looks at it.
\<close>

record 's BlockchainRepository =
  repoCreateBlock :: "bytes \<Rightarrow> bytes \<Rightarrow> 's \<Rightarrow> (error + bytes) \<times> 's"
  repoCreateTransaction :: "bytes \<Rightarrow> bytes \<Rightarrow> 's \<Rightarrow> error option \<times> 's"
  repoGetBlock :: "'s \<Rightarrow> error + bytes"
  repoGetBlockchain :: "'s \<Rightarrow> error + bytes list"

record 's blockchainService =
  blockchainRepo :: "'s BlockchainRepository"
  CreateBlock :: "Transaction list \<Rightarrow> bytes \<Rightarrow> Block"
  CreateCoinbaseTxn :: "string \<Rightarrow> string \<Rightarrow> Transaction"
  CreateTransaction :: "string \<Rightarrow> string \<Rightarrow> int \<Rightarrow> error + Transaction"
  ToBlockBytes :: "Block \<Rightarrow> bytes"
  ToBlockStructure :: "bytes \<Rightarrow> Block"
  ToTxnBytes :: "Transaction \<Rightarrow> bytes"

section \<open>The chain manager\<close>

subsection \<open>GetGenesisBlock\<close>

text \<open>
  The loop of \<^verbatim>\<open>GetGenesisBlock\<close>: \<open>genesis\<close> starts as the zero block and is replaced by
  the first decoded block whose previous hash is empty, where the loop breaks.
\<close>

fun genesisLoop :: "(bytes \<Rightarrow> Block) \<Rightarrow> Block \<Rightarrow> bytes list \<Rightarrow> Block" where
  "genesisLoop dec genesis [] = genesis"
| "genesisLoop dec genesis (block # blocks) =
     (let decodedB = dec block
      in if length (PrevHash decodedB) = 0 then decodedB
         else genesisLoop dec genesis blocks)"

definition GetGenesisBlock :: "'s blockchainService \<Rightarrow> 's \<Rightarrow> Block \<times> error option" where
  "GetGenesisBlock bc s =
     (case repoGetBlockchain (blockchainRepo bc) s of
        Inl err \<Rightarrow> (zeroBlock, Some err)
      | Inr blocks \<Rightarrow>
          (let genesis = genesisLoop (ToBlockStructure bc) zeroBlock blocks
           in if length (Hash genesis) = 0 \<and> length (PrevHash genesis) = 0
              then (genesis, Some GenesisNotFound)
              else (genesis, None)))"

subsection \<open>CreateBlockchain\<close>

text \<open>
  The returned block pointer is \<open>None\<close> where the Go code returns \<^verbatim>\<open>nil\<close>.
\<close>

definition CreateBlockchain ::
  "'s blockchainService \<Rightarrow> string \<Rightarrow> 's \<Rightarrow> (Block option \<times> bool \<times> error option) \<times> 's" where
  "CreateBlockchain bc to s =
     (let doesExist = False
      in case GetGenesisBlock bc s of
           (genesisBlock, Some err) \<Rightarrow>
             (let coinbaseTxn = CreateCoinbaseTxn bc to ''First transaction in Blockchain'';
                  newBlock = CreateBlock bc [coinbaseTxn] [];
                  serializedBlock = ToBlockBytes bc newBlock
              in case repoCreateBlock (blockchainRepo bc) (Hash newBlock) serializedBlock s of
                   (Inl err', s') \<Rightarrow> ((None, doesExist, Some err'), s')
                 | (Inr newBlockchain, s') \<Rightarrow>
                     ((Some (ToBlockStructure bc newBlockchain), doesExist, None), s'))
         | (genesisBlock, None) \<Rightarrow>
             ((Some genesisBlock,
               (if length (PrevHash genesisBlock) = 0 then True else doesExist),
               None), s))"

subsection \<open>AddToBlockChain\<close>

definition AddToBlockChain ::
  "'s blockchainService \<Rightarrow> string \<Rightarrow> string \<Rightarrow> int \<Rightarrow> 's
     \<Rightarrow> (Block option \<times> error option) \<times> 's" where
  "AddToBlockChain bc from to amount s =
     (case repoGetBlock (blockchainRepo bc) s of
        Inl err \<Rightarrow> ((Some zeroBlock, Some (NotInitialized (errorString err))), s)
      | Inr lastBlock \<Rightarrow>
          (let decodedLastBlock = ToBlockStructure bc lastBlock
           in case CreateTransaction bc from to amount of
                Inl err \<Rightarrow> ((Some zeroBlock, Some err), s)
              | Inr newTxn \<Rightarrow>
                  (let newBlock = CreateBlock bc [newTxn] (Hash decodedLastBlock)
                   in case repoCreateBlock (blockchainRepo bc) (Hash newBlock)
                             (ToBlockBytes bc newBlock) s of
                        (Inl err, s1) \<Rightarrow> ((Some zeroBlock, Some err), s1)
                      | (Inr ack, s1) \<Rightarrow>
                          (case repoCreateTransaction (blockchainRepo bc) (ID newTxn)
                                  (ToTxnBytes bc newTxn) s1 of
                             (Some err, s2) \<Rightarrow> ((Some zeroBlock, Some err), s2)
                           | (None, s2) \<Rightarrow> ((Some newBlock, None), s2)))))"

subsection \<open>GetBlockchain\<close>

text \<open>
  \<^verbatim>\<open>sort.Slice\<close> belongs to the Go standard library, which promises a permutation of
  the slice ordered by the less function and no stability. It is modelled by the
  insertion sort the library runs on short slices: each element in turn is swapped
  towards the front while \<open>lessFn\<close> holds between it and its left neighbour. The sorted
  prefix is kept reversed, so that the neighbour is the head of the list. The theorems
  on \<^verbatim>\<open>GetBlockchain\<close> state the order and the multiset of the result only.
\<close>

fun insertLeft :: "('a \<Rightarrow> 'a \<Rightarrow> bool) \<Rightarrow> 'a \<Rightarrow> 'a list \<Rightarrow> 'a list" where
  "insertLeft lessFn x [] = [x]"
| "insertLeft lessFn x (y # prefix) =
     (if lessFn x y then y # insertLeft lessFn x prefix else x # y # prefix)"

definition sortSlice :: "('a \<Rightarrow> 'a \<Rightarrow> bool) \<Rightarrow> 'a list \<Rightarrow> 'a list" where
  "sortSlice lessFn xs = rev (foldl (\<lambda>prefix x. insertLeft lessFn x prefix) [] xs)"

definition GetBlockchain :: "'s blockchainService \<Rightarrow> 's \<Rightarrow> Block list \<times> error option" where
  "GetBlockchain bc s =
     (case repoGetBlockchain (blockchainRepo bc) s of
        Inl err \<Rightarrow> ([], Some err)
      | Inr blocks \<Rightarrow>
          (let allBlocks = map (ToBlockStructure bc) blocks
           in (sortSlice (\<lambda>bi bj. Timestamp bi > Timestamp bj) allBlocks, None)))"

section \<open>An in-memory persistence boundary\<close>

text \<open>
  Modelled from the spec: the package \<^verbatim>\<open>repository\<close> is not among the sources. Sections 2
  and 6 of the specification describe it as a key-value store with four operations:
  store-block (which also records the block as the last one, as the comment in
  \<^verbatim>\<open>CreateBlockchain\<close> says), store-transaction, get-last-block (which fails when no last
  block is recorded) and enumerate-blocks; each may fail with a storage error. The store
  keeps its entries in the order of their first write, and a failed operation leaves it
  as it was. Which operations fail in a given call is an input, \<open>faults\<close>.
\<close>

record memStore =
  storedBlocks :: "(bytes \<times> bytes) list"
  storedTxns :: "(bytes \<times> bytes) list"
  lastBlockKey :: "bytes option"

definition emptyStore :: memStore where
  "emptyStore = \<lparr>storedBlocks = [], storedTxns = [], lastBlockKey = None\<rparr>"

record faults =
  failCreateBlock :: "error option"
  failCreateTransaction :: "error option"
  failGetBlock :: "error option"
  failGetBlockchain :: "error option"

definition noFaults :: faults where
  "noFaults = \<lparr>failCreateBlock = None, failCreateTransaction = None,
                failGetBlock = None, failGetBlockchain = None\<rparr>"

text \<open>
  Modelled from the spec: store-block(hash, bytes) keeps the bytes under the hash, makes
  the hash the last-block pointer and acknowledges with the bytes.
\<close>

definition memCreateBlock ::
  "faults \<Rightarrow> bytes \<Rightarrow> bytes \<Rightarrow> memStore \<Rightarrow> (error + bytes) \<times> memStore" where
  "memCreateBlock f k v s =
     (case failCreateBlock f of
        Some e \<Rightarrow> (Inl e, s)
      | None \<Rightarrow>
          (Inr v, s\<lparr>storedBlocks := AList.update k v (storedBlocks s), lastBlockKey := Some k\<rparr>))"

text \<open>Modelled from the spec: store-transaction(id, bytes) keeps the bytes under the id.\<close>

definition memCreateTransaction ::
  "faults \<Rightarrow> bytes \<Rightarrow> bytes \<Rightarrow> memStore \<Rightarrow> error option \<times> memStore" where
  "memCreateTransaction f k v s =
     (case failCreateTransaction f of
        Some e \<Rightarrow> (Some e, s)
      | None \<Rightarrow> (None, s\<lparr>storedTxns := AList.update k v (storedTxns s)\<rparr>))"

text \<open>
  Modelled from the spec: get-last-block returns the serialized block the last-block
  pointer names and fails when there is none.
\<close>

definition memGetBlock :: "faults \<Rightarrow> memStore \<Rightarrow> error + bytes" where
  "memGetBlock f s =
     (case failGetBlock f of
        Some e \<Rightarrow> Inl e
      | None \<Rightarrow>
          (case lastBlockKey s of
             None \<Rightarrow> Inl (CollaboratorError ''no last block'')
           | Some k \<Rightarrow>
               (case map_of (storedBlocks s) k of
                  None \<Rightarrow> Inl (CollaboratorError ''no last block'')
                | Some v \<Rightarrow> Inr v)))"

text \<open>Modelled from the spec: enumerate-blocks returns every stored serialized block.\<close>

definition memGetBlockchain :: "faults \<Rightarrow> memStore \<Rightarrow> error + bytes list" where
  "memGetBlockchain f s =
     (case failGetBlockchain f of
        Some e \<Rightarrow> Inl e
      | None \<Rightarrow> Inr (map snd (storedBlocks s)))"

text \<open>The in-memory store behind the repository interface.\<close>

definition memRepo :: "faults \<Rightarrow> memStore BlockchainRepository" where
  "memRepo f =
     \<lparr>repoCreateBlock = memCreateBlock f,
      repoCreateTransaction = memCreateTransaction f,
      repoGetBlock = memGetBlock f,
      repoGetBlockchain = memGetBlockchain f\<rparr>"

subsection \<open>Stand-ins for the factories and the codec\<close>

text \<open>
  The factories and the codec of the repository are not among the sources either. The
  general theorems below take them as they come; the concrete runs use these stand-ins.
  The block factory stamps the block with a given clock reading and derives a one-byte
  hash from it; the codec writes a block as its hash and reads it back from a table of
  known blocks.
\<close>

definition demoCoinbaseTxn :: "string \<Rightarrow> string \<Rightarrow> Transaction" where
  "demoCoinbaseTxn to memo = \<lparr>ID = [0], From = [], To = to, Amount = 0, Memo = memo\<rparr>"

definition demoTransaction :: "string \<Rightarrow> string \<Rightarrow> int \<Rightarrow> error + Transaction" where
  "demoTransaction from to amount =
     (if amount < 0 then Inl (CollaboratorError ''invalid amount'')
      else Inr \<lparr>ID = [1], From = from, To = to, Amount = amount, Memo = []\<rparr>)"

definition demoBlock :: "int \<Rightarrow> Transaction list \<Rightarrow> bytes \<Rightarrow> Block" where
  "demoBlock now txns prevHash =
     \<lparr>Timestamp = now, Hash = [of_int now], PrevHash = prevHash, Transactions = txns\<rparr>"

definition tableDecode :: "Block list \<Rightarrow> bytes \<Rightarrow> Block" where
  "tableDecode known v =
     (case find (\<lambda>b. Hash b = v) known of Some b \<Rightarrow> b | None \<Rightarrow> zeroBlock)"

definition demoService :: "faults \<Rightarrow> int \<Rightarrow> Block list \<Rightarrow> memStore blockchainService" where
  "demoService f now known =
     \<lparr>blockchainRepo = memRepo f,
      CreateBlock = demoBlock now,
      CreateCoinbaseTxn = demoCoinbaseTxn,
      CreateTransaction = demoTransaction,
      ToBlockBytes = Hash,
      ToBlockStructure = tableDecode known,
      ToTxnBytes = ID\<rparr>"

section \<open>Contracts of the collaborators\<close>

text \<open>
  Modelled from the spec: section 6 requires of the block factory
  make-block(transactions, prevHash) a block built from these transactions with that
  previous hash; hash and timestamp are the factory's to compute.
\<close>

definition blockFactoryContract :: "'s blockchainService \<Rightarrow> bool" where
  "blockFactoryContract bc \<longleftrightarrow>
     (\<forall>txns prevHash. PrevHash (CreateBlock bc txns prevHash) = prevHash
                    \<and> Transactions (CreateBlock bc txns prevHash) = txns)"

text \<open>
  Modelled from the spec: store-block acknowledges a write. \<^verbatim>\<open>CreateBlockchain\<close> decodes
  the acknowledgement as a block, so the acknowledgement is the serialized block that
  was stored.
\<close>

definition storeBlockAcks :: "'s blockchainService \<Rightarrow> bool" where
  "storeBlockAcks bc \<longleftrightarrow>
     (\<forall>k v s ack s'. repoCreateBlock (blockchainRepo bc) k v s = (Inr ack, s') \<longrightarrow> ack = v)"

text \<open>
  Modelled from the spec: the codec offers serialize and deserialize for blocks;
  deserializing what was serialized from a block gives that block back.
\<close>

definition codecRoundTrip :: "'s blockchainService \<Rightarrow> Block \<Rightarrow> bool" where
  "codecRoundTrip bc b \<longleftrightarrow> ToBlockStructure bc (ToBlockBytes bc b) = b"

section \<open>Sequences of CreateBlockchain calls\<close>






section \<open>Concrete stores and blocks\<close>

text \<open>The error of a storage operation that fails.\<close>

definition storageError :: error where
  "storageError = CollaboratorError ''storage error''"

text \<open>The genesis block the stand-in factory builds for alice at clock reading 1.\<close>

definition aliceGenesis :: Block where
  "aliceGenesis = demoBlock 1 [demoCoinbaseTxn ''alice'' ''First transaction in Blockchain''] []"

definition aliceStore :: memStore where
  "aliceStore = \<lparr>storedBlocks = [(Hash aliceGenesis, Hash aliceGenesis)], storedTxns = [],
                   lastBlockKey = Some (Hash aliceGenesis)\<rparr>"

text \<open>
  The transfer of 10 from alice to bob, the block built for it at clock reading 2, and the
  store after that block was written and the write of the transaction failed.
\<close>

definition bobTxn :: Transaction where
  "bobTxn = \<lparr>ID = [1], From = ''alice'', To = ''bob'', Amount = 10, Memo = []\<rparr>"

definition bobBlock :: Block where
  "bobBlock = demoBlock 2 [bobTxn] (Hash aliceGenesis)"

definition bobStore :: memStore where
  "bobStore = \<lparr>storedBlocks = [(Hash aliceGenesis, Hash aliceGenesis), (Hash bobBlock, Hash bobBlock)],
                storedTxns = [], lastBlockKey = Some (Hash bobBlock)\<rparr>"

text \<open>The same entries in the opposite order of enumeration.\<close>

definition bobStoreReversed :: memStore where
  "bobStoreReversed =
     \<lparr>storedBlocks = [(Hash bobBlock, Hash bobBlock), (Hash aliceGenesis, Hash aliceGenesis)],
      storedTxns = [], lastBlockKey = Some (Hash bobBlock)\<rparr>"





section \<open>Auxiliary facts\<close>

text \<open>The definitions that a concrete run unfolds.\<close>

lemmas demo_defs =
  demoService_def memRepo_def memCreateBlock_def memCreateTransaction_def memGetBlock_def
  memGetBlockchain_def noFaults_def emptyStore_def demoCoinbaseTxn_def demoTransaction_def
  demoBlock_def tableDecode_def aliceGenesis_def aliceStore_def zeroBlock_def

text \<open>The loop of the genesis lookup is a search for the first block without previous hash.\<close>

lemma genesisLoop_find:
  "genesisLoop dec z bs =
     (case find (\<lambda>b. PrevHash b = []) (map dec bs) of None \<Rightarrow> z | Some g \<Rightarrow> g)"
  by (induction bs) (simp_all add: Let_def)

lemma genesisLoop_zero_PrevHash: "PrevHash (genesisLoop dec zeroBlock bs) = []"
  by (induction bs) (simp_all add: Let_def zeroBlock_def)

lemma GetGenesisBlock_found_PrevHash:
  "GetGenesisBlock bc s = (g, None) \<Longrightarrow> PrevHash g = []"
  by (auto simp: GetGenesisBlock_def Let_def genesisLoop_zero_PrevHash
           split: sum.splits if_splits)

text \<open>The insertion sort permutes its input and orders it by the key it compares.\<close>

lemma mset_insertLeft: "mset (insertLeft lessFn x ys) = add_mset x (mset ys)"
  by (induction ys) simp_all

lemma mset_insertion_fold:
  "mset (foldl (\<lambda>prefix x. insertLeft lessFn x prefix) acc xs) = mset acc + mset xs"
  by (induction xs arbitrary: acc) (simp_all add: mset_insertLeft)

lemma mset_sortSlice: "mset (sortSlice lessFn xs) = mset xs"
  by (simp add: sortSlice_def mset_insertion_fold)

lemma set_insertLeft: "set (insertLeft lessFn x ys) = insert x (set ys)"
  by (induction ys) auto

lemma sorted_insertLeft:
  fixes key :: "'a \<Rightarrow> int"
  assumes "sorted (map key ys)"
  shows "sorted (map key (insertLeft (\<lambda>a b. key a > key b) x ys))"
  using assms
  by (induction ys) (auto simp: set_insertLeft)

lemma sorted_insertion_fold:
  fixes key :: "'a \<Rightarrow> int"
  assumes "sorted (map key acc)"
  shows "sorted (map key (foldl (\<lambda>prefix x. insertLeft (\<lambda>a b. key a > key b) x prefix) acc xs))"
  using assms
  by (induction xs arbitrary: acc) (simp_all add: sorted_insertLeft)

lemma sortSlice_descending:
  fixes key :: "'a \<Rightarrow> int"
  shows "sorted_wrt (\<lambda>a b. key a \<ge> key b) (sortSlice (\<lambda>a b. key a > key b) xs)"
proof -
  let ?r = "foldl (\<lambda>prefix x. insertLeft (\<lambda>a b. key a > key b) x prefix) [] xs"
  have "sorted (map key ?r)"
    by (rule sorted_insertion_fold) simp
  then have "sorted_wrt (\<lambda>a b. key a \<le> key b) ?r"
    by (simp add: sorted_map)
  then show ?thesis
    by (simp add: sortSlice_def sorted_wrt_rev)
qed

lemma ascending_unique:
  fixes key :: "'a \<Rightarrow> int"
  assumes "sorted (map key xs)" and "sorted_wrt (<) (map key ys)" and "mset xs = mset ys"
  shows "xs = ys"
proof -
  have ys: "sorted (map key ys)" "distinct (map key ys)"
    using assms(2) by (simp_all add: strict_sorted_iff)
  have keys: "mset (map key xs) = mset (map key ys)"
    using assms(3) by simp
  then have "distinct (map key xs)"
    using ys(2) by (metis mset_eq_imp_distinct_iff)
  moreover have "set (map key xs) = set (map key ys)"
    using keys by (metis set_mset_mset)
  ultimately have "map key xs = map key ys"
    using assms(1) ys by (metis sorted_distinct_set_unique)
  moreover have "inj_on key (set xs \<union> set ys)"
    using ys(2) assms(3) by (metis distinct_map set_mset_mset sup.idem)
  ultimately show ?thesis
    by (simp add: inj_on_map_eq_map)
qed

lemma sortSlice_chain:
  fixes key :: "'a \<Rightarrow> int"
  assumes "sorted_wrt (<) (map key chain)" and "mset xs = mset chain"
  shows "sortSlice (\<lambda>a b. key a > key b) xs = rev chain"
proof -
  let ?r = "foldl (\<lambda>prefix x. insertLeft (\<lambda>a b. key a > key b) x prefix) [] xs"
  have asc: "sorted (map key ?r)"
    by (rule sorted_insertion_fold) simp
  have perm: "mset ?r = mset chain"
    using assms(2) by (simp add: mset_insertion_fold)
  have "?r = chain"
    using asc assms(1) perm by (rule ascending_unique)
  then show ?thesis by (simp add: sortSlice_def)
qed

text \<open>The first match of a search depends on the matching elements only.\<close>

lemma find_filter: "find P xs = (case filter P xs of [] \<Rightarrow> None | y # _ \<Rightarrow> Some y)"
  by (induction xs) simp_all

lemma short_lists_same_mset:
  assumes "mset xs = mset ys" and "length xs \<le> 1"
  shows "xs = ys"
proof (cases xs)
  case Nil
  with assms(1) show ?thesis by simp
next
  case (Cons x xs')
  with assms(2) have "xs = [x]" by simp
  with assms(1) show ?thesis by (metis mset_single_iff_right mset.simps(1))
qed







section \<open>Appending a block\<close>

text \<open>
  C3. When the read of the last block fails, as it does while no last block has been
  recorded, \<^verbatim>\<open>AddToBlockChain\<close> returns the error that wraps the cause in the "not created
  yet" message together with a zero block, and hands back the store untouched: no write
  is issued.
\<close>

theorem AddToBlockChain_uninitialized:
  assumes "repoGetBlock (blockchainRepo bc) s = Inl e"
  shows "AddToBlockChain bc from to amount s =
           ((Some zeroBlock, Some (NotInitialized (errorString e))), s)"
  using assms by (simp add: AddToBlockChain_def)

theorem AddToBlockChain_uninitialized_witness:
  "lastBlockKey emptyStore = None \<and>
   repoGetBlock (blockchainRepo (demoService noFaults 2 [])) emptyStore
     = Inl (CollaboratorError ''no last block'') \<and>
   AddToBlockChain (demoService noFaults 2 []) ''alice'' ''bob'' 10 emptyStore
     = ((Some zeroBlock, Some (NotInitialized ''no last block'')), emptyStore)"
proof -
  have h: "repoGetBlock (blockchainRepo (demoService noFaults 2 [])) emptyStore
             = Inl (CollaboratorError ''no last block'')"
    by (simp add: demoService_def memRepo_def memGetBlock_def noFaults_def emptyStore_def)
  show ?thesis
    using h AddToBlockChain_uninitialized [OF h, of "''alice''" "''bob''" 10]
    by (simp add: emptyStore_def)
qed

text \<open>
  C2. Every successful \<^verbatim>\<open>AddToBlockChain\<close> call read a last block, built one transaction
  from the three arguments and one block from that transaction and the hash of the decoded
  last block, wrote that block under its own hash and then the transaction under its id,
  and returned that block. With a block factory that honours its contract, the previous
  hash of the block is the hash of the decoded last block and its transactions are that
  one transaction.
\<close>

theorem AddToBlockChain_linkage:
  assumes "AddToBlockChain bc from to amount s = ((blk, None), s')"
      and "blockFactoryContract bc"
  shows "\<exists>lastBlock newTxn newBlock ack s1.
           repoGetBlock (blockchainRepo bc) s = Inr lastBlock
         \<and> CreateTransaction bc from to amount = Inr newTxn
         \<and> newBlock = CreateBlock bc [newTxn] (Hash (ToBlockStructure bc lastBlock))
         \<and> repoCreateBlock (blockchainRepo bc) (Hash newBlock) (ToBlockBytes bc newBlock) s
             = (Inr ack, s1)
         \<and> repoCreateTransaction (blockchainRepo bc) (ID newTxn) (ToTxnBytes bc newTxn) s1
             = (None, s')
         \<and> blk = Some newBlock
         \<and> PrevHash newBlock = Hash (ToBlockStructure bc lastBlock)
         \<and> Transactions newBlock = [newTxn]"
  using assms
  by (auto simp: AddToBlockChain_def Let_def blockFactoryContract_def
           split: sum.splits prod.splits option.splits)

theorem AddToBlockChain_linkage_witness:
  "AddToBlockChain (demoService noFaults 2 [aliceGenesis]) ''alice'' ''bob'' 10 aliceStore
     = ((Some bobBlock, None),
        \<lparr>storedBlocks = [([1], [1]), ([2], [2])], storedTxns = [([1], [1])],
         lastBlockKey = Some [2]\<rparr>)
   \<and> blockFactoryContract (demoService noFaults 2 [aliceGenesis])
   \<and> PrevHash bobBlock = Hash aliceGenesis \<and> Transactions bobBlock = [bobTxn]"
proof -
  let ?bc = "demoService noFaults 2 [aliceGenesis]"
  let ?s' = "\<lparr>storedBlocks = [([1], [1]), ([2], [2])], storedTxns = [([1], [1])],
              lastBlockKey = Some [2]\<rparr>"
  have run: "AddToBlockChain ?bc ''alice'' ''bob'' 10 aliceStore = ((Some bobBlock, None), ?s')"
    by (simp add: AddToBlockChain_def demo_defs bobBlock_def bobTxn_def)
  have contract: "blockFactoryContract ?bc"
    by (simp add: blockFactoryContract_def demoService_def demoBlock_def)
  have txn: "CreateTransaction ?bc ''alice'' ''bob'' 10 = Inr bobTxn"
    by (simp add: demoService_def demoTransaction_def bobTxn_def)
  have lb: "repoGetBlock (blockchainRepo ?bc) aliceStore = Inr (Hash aliceGenesis)"
    by (simp add: demo_defs)
  have dec: "ToBlockStructure ?bc (Hash aliceGenesis) = aliceGenesis"
    by (simp add: demo_defs)
  from AddToBlockChain_linkage [OF run contract] txn lb dec
  have "PrevHash bobBlock = Hash aliceGenesis \<and> Transactions bobBlock = [bobTxn]"
    by auto
  with run contract show ?thesis by simp
qed

text \<open>
  C7. The block write comes first and the transaction write works on the store the block
  write left. If the block write fails, its error is returned with a zero block and the
  result store is the one the block write left: no transaction write is issued. If the
  transaction write fails, its error is returned and the result store is the one that
  write left on top of the block write: the block is not taken back.
\<close>

theorem AddToBlockChain_partial_failure:
  assumes "repoGetBlock (blockchainRepo bc) s = Inr lastBlock"
      and "CreateTransaction bc from to amount = Inr newTxn"
      and "newBlock = CreateBlock bc [newTxn] (Hash (ToBlockStructure bc lastBlock))"
      and "repoCreateBlock (blockchainRepo bc) (Hash newBlock) (ToBlockBytes bc newBlock) s
             = (r1, s1)"
      and "repoCreateTransaction (blockchainRepo bc) (ID newTxn) (ToTxnBytes bc newTxn) s1
             = (r2, s2)"
  shows "(\<forall>e. r1 = Inl e \<longrightarrow>
            AddToBlockChain bc from to amount s = ((Some zeroBlock, Some e), s1))
       \<and> (\<forall>ack e. r1 = Inr ack \<and> r2 = Some e \<longrightarrow>
            AddToBlockChain bc from to amount s = ((Some zeroBlock, Some e), s2))
       \<and> (\<forall>ack. r1 = Inr ack \<and> r2 = None \<longrightarrow>
            AddToBlockChain bc from to amount s = ((Some newBlock, None), s2))"
  using assms by (auto simp: AddToBlockChain_def Let_def)

theorem AddToBlockChain_partial_failure_witness:
  "AddToBlockChain (demoService (noFaults\<lparr>failCreateTransaction := Some storageError\<rparr>) 2 [aliceGenesis])
       ''alice'' ''bob'' 10 aliceStore
     = ((Some zeroBlock, Some storageError), bobStore)
   \<and> map_of (storedBlocks bobStore) (Hash bobBlock) = Some (Hash bobBlock)
   \<and> storedTxns bobStore = []"
proof -
  let ?bc = "demoService (noFaults\<lparr>failCreateTransaction := Some storageError\<rparr>) 2 [aliceGenesis]"
  have lb: "repoGetBlock (blockchainRepo ?bc) aliceStore = Inr (Hash aliceGenesis)"
    by (simp add: demo_defs)
  have txn: "CreateTransaction ?bc ''alice'' ''bob'' 10 = Inr bobTxn"
    by (simp add: demoService_def demoTransaction_def bobTxn_def)
  have block: "bobBlock = CreateBlock ?bc [bobTxn] (Hash (ToBlockStructure ?bc (Hash aliceGenesis)))"
    by (simp add: demo_defs bobBlock_def)
  have w1: "repoCreateBlock (blockchainRepo ?bc) (Hash bobBlock) (ToBlockBytes ?bc bobBlock) aliceStore
              = (Inr (Hash bobBlock), bobStore)"
    by (simp add: demo_defs bobStore_def bobBlock_def)
  have w2: "repoCreateTransaction (blockchainRepo ?bc) (ID bobTxn) (ToTxnBytes ?bc bobTxn) bobStore
              = (Some storageError, bobStore)"
    by (simp add: demo_defs)
  from AddToBlockChain_partial_failure [OF lb txn block w1 w2]
  have "AddToBlockChain ?bc ''alice'' ''bob'' 10 aliceStore = ((Some zeroBlock, Some storageError), bobStore)"
    by blast
  then show ?thesis
    by (simp add: bobStore_def bobBlock_def demoBlock_def)
qed

text \<open>
  C10. \<^verbatim>\<open>AddToBlockChain\<close> never returns a nil block. Whenever it returns an error the
  block is the zero block, whose hash, previous hash and transactions are empty; this is
  so on each of the four error paths: the last-block read fails, the transaction cannot
  be built, the block write fails, the transaction write fails.
\<close>

theorem AddToBlockChain_error_result:
  assumes "AddToBlockChain bc from to amount s = ((blk, err), s')"
  shows "blk \<noteq> None
       \<and> (err \<noteq> None \<longrightarrow> blk = Some zeroBlock)
       \<and> Hash zeroBlock = [] \<and> PrevHash zeroBlock = [] \<and> Transactions zeroBlock = []
       \<and> (\<forall>e. repoGetBlock (blockchainRepo bc) s = Inl e \<longrightarrow>
             blk = Some zeroBlock \<and> err = Some (NotInitialized (errorString e)))
       \<and> (\<forall>lastBlock e.
             repoGetBlock (blockchainRepo bc) s = Inr lastBlock \<longrightarrow>
             CreateTransaction bc from to amount = Inl e \<longrightarrow>
             blk = Some zeroBlock \<and> err = Some e)
       \<and> (\<forall>lastBlock newTxn e s1.
             repoGetBlock (blockchainRepo bc) s = Inr lastBlock \<longrightarrow>
             CreateTransaction bc from to amount = Inr newTxn \<longrightarrow>
             (let newBlock = CreateBlock bc [newTxn] (Hash (ToBlockStructure bc lastBlock))
              in repoCreateBlock (blockchainRepo bc) (Hash newBlock) (ToBlockBytes bc newBlock) s
                   = (Inl e, s1)) \<longrightarrow>
             blk = Some zeroBlock \<and> err = Some e)
       \<and> (\<forall>lastBlock newTxn ack e s1 s2.
             repoGetBlock (blockchainRepo bc) s = Inr lastBlock \<longrightarrow>
             CreateTransaction bc from to amount = Inr newTxn \<longrightarrow>
             (let newBlock = CreateBlock bc [newTxn] (Hash (ToBlockStructure bc lastBlock))
              in repoCreateBlock (blockchainRepo bc) (Hash newBlock) (ToBlockBytes bc newBlock) s
                   = (Inr ack, s1)) \<longrightarrow>
             repoCreateTransaction (blockchainRepo bc) (ID newTxn) (ToTxnBytes bc newTxn) s1
               = (Some e, s2) \<longrightarrow>
             blk = Some zeroBlock \<and> err = Some e)"
proof -
  have nonnil: "blk \<noteq> None" and zero: "err \<noteq> None \<longrightarrow> blk = Some zeroBlock"
    using assms
    by (auto simp: AddToBlockChain_def Let_def split: sum.splits prod.splits option.splits)
  have fields: "Hash zeroBlock = [] \<and> PrevHash zeroBlock = [] \<and> Transactions zeroBlock = []"
    by (simp add: zeroBlock_def)
  have p1: "\<forall>e. repoGetBlock (blockchainRepo bc) s = Inl e \<longrightarrow>
             blk = Some zeroBlock \<and> err = Some (NotInitialized (errorString e))"
    using assms by (auto simp: AddToBlockChain_def)
  have p2: "\<forall>lastBlock e.
             repoGetBlock (blockchainRepo bc) s = Inr lastBlock \<longrightarrow>
             CreateTransaction bc from to amount = Inl e \<longrightarrow>
             blk = Some zeroBlock \<and> err = Some e"
    using assms by (auto simp: AddToBlockChain_def Let_def)
  have p3: "\<forall>lastBlock newTxn e s1.
             repoGetBlock (blockchainRepo bc) s = Inr lastBlock \<longrightarrow>
             CreateTransaction bc from to amount = Inr newTxn \<longrightarrow>
             (let newBlock = CreateBlock bc [newTxn] (Hash (ToBlockStructure bc lastBlock))
              in repoCreateBlock (blockchainRepo bc) (Hash newBlock) (ToBlockBytes bc newBlock) s
                   = (Inl e, s1)) \<longrightarrow>
             blk = Some zeroBlock \<and> err = Some e"
    using assms by (auto simp: AddToBlockChain_def Let_def)
  have p4: "\<forall>lastBlock newTxn ack e s1 s2.
             repoGetBlock (blockchainRepo bc) s = Inr lastBlock \<longrightarrow>
             CreateTransaction bc from to amount = Inr newTxn \<longrightarrow>
             (let newBlock = CreateBlock bc [newTxn] (Hash (ToBlockStructure bc lastBlock))
              in repoCreateBlock (blockchainRepo bc) (Hash newBlock) (ToBlockBytes bc newBlock) s
                   = (Inr ack, s1)) \<longrightarrow>
             repoCreateTransaction (blockchainRepo bc) (ID newTxn) (ToTxnBytes bc newTxn) s1
               = (Some e, s2) \<longrightarrow>
             blk = Some zeroBlock \<and> err = Some e"
    using assms by (auto simp: AddToBlockChain_def Let_def)
  from nonnil zero fields p1 p2 p3 p4 show ?thesis by blast
qed

theorem AddToBlockChain_error_result_witness:
  "AddToBlockChain (demoService noFaults 2 [aliceGenesis]) ''alice'' ''bob'' (- 5) aliceStore
     = ((Some zeroBlock, Some (CollaboratorError ''invalid amount'')), aliceStore)
   \<and> Some zeroBlock \<noteq> None"
proof -
  let ?bc = "demoService noFaults 2 [aliceGenesis]"
  obtain blk err s' where
    run: "AddToBlockChain ?bc ''alice'' ''bob'' (- 5) aliceStore = ((blk, err), s')"
    by (metis surj_pair)
  have lb: "repoGetBlock (blockchainRepo ?bc) aliceStore = Inr (Hash aliceGenesis)"
    by (simp add: demo_defs)
  have txn: "CreateTransaction ?bc ''alice'' ''bob'' (- 5) = Inl (CollaboratorError ''invalid amount'')"
    by (simp add: demoService_def demoTransaction_def)
  from AddToBlockChain_error_result [OF run] lb txn
  have "blk = Some zeroBlock \<and> err = Some (CollaboratorError ''invalid amount'')"
    by blast
  moreover have "s' = aliceStore"
    using run lb txn by (simp add: AddToBlockChain_def)
  ultimately show ?thesis using run by simp
qed

section \<open>Creating the chain\<close>

text \<open>
  C6. When the genesis lookup fails, \<^verbatim>\<open>CreateBlockchain\<close> builds a block from the one
  coinbase transaction made for \<open>to\<close> with the fixed memo and from an empty previous hash,
  and writes it under its hash. If the write fails, the error is returned with a nil block
  and the flag false. If it succeeds, the block is returned with the flag false; that the
  returned block is the built one rests on the store acknowledging with the stored bytes
  and on the codec reading back what it wrote.
\<close>

theorem CreateBlockchain_creation:
  assumes "GetGenesisBlock bc s = (g0, Some e0)"
      and "coinbaseTxn = CreateCoinbaseTxn bc to ''First transaction in Blockchain''"
      and "newBlock = CreateBlock bc [coinbaseTxn] []"
      and "repoCreateBlock (blockchainRepo bc) (Hash newBlock) (ToBlockBytes bc newBlock) s
             = (r, s')"
      and "blockFactoryContract bc"
      and "storeBlockAcks bc"
      and "codecRoundTrip bc newBlock"
  shows "Transactions newBlock = [coinbaseTxn] \<and> PrevHash newBlock = []
       \<and> (\<forall>e. r = Inl e \<longrightarrow> CreateBlockchain bc to s = ((None, False, Some e), s'))
       \<and> (\<forall>ack. r = Inr ack \<longrightarrow>
             CreateBlockchain bc to s = ((Some newBlock, False, None), s'))"
proof -
  have fields: "Transactions newBlock = [coinbaseTxn] \<and> PrevHash newBlock = []"
    using assms(3,5) by (simp add: blockFactoryContract_def)
  have fail: "CreateBlockchain bc to s = ((None, False, Some e), s')" if "r = Inl e" for e
    using assms(1-4) that by (simp add: CreateBlockchain_def Let_def)
  have ok: "CreateBlockchain bc to s = ((Some newBlock, False, None), s')" if "r = Inr ack" for ack
  proof -
    have "ack = ToBlockBytes bc newBlock"
      using assms(4,6) that unfolding storeBlockAcks_def by blast
    then have "ToBlockStructure bc ack = newBlock"
      using assms(7) by (simp add: codecRoundTrip_def)
    then show ?thesis
      using assms(1-4) that by (simp add: CreateBlockchain_def Let_def)
  qed
  from fields fail ok show ?thesis by blast
qed

theorem CreateBlockchain_creation_witness:
  "GetGenesisBlock (demoService noFaults 1 [aliceGenesis]) emptyStore
     = (zeroBlock, Some GenesisNotFound)
   \<and> blockFactoryContract (demoService noFaults 1 [aliceGenesis])
   \<and> storeBlockAcks (demoService noFaults 1 [aliceGenesis])
   \<and> codecRoundTrip (demoService noFaults 1 [aliceGenesis]) aliceGenesis
   \<and> Transactions aliceGenesis = [demoCoinbaseTxn ''alice'' ''First transaction in Blockchain'']
   \<and> PrevHash aliceGenesis = []
   \<and> CreateBlockchain (demoService noFaults 1 [aliceGenesis]) ''alice'' emptyStore
       = ((Some aliceGenesis, False, None), aliceStore)"
proof -
  let ?bc = "demoService noFaults 1 [aliceGenesis]"
  have lookup: "GetGenesisBlock ?bc emptyStore = (zeroBlock, Some GenesisNotFound)"
    by (simp add: GetGenesisBlock_def demo_defs)
  have coinbase: "demoCoinbaseTxn ''alice'' ''First transaction in Blockchain''
                    = CreateCoinbaseTxn ?bc ''alice'' ''First transaction in Blockchain''"
    by (simp add: demoService_def)
  have block: "aliceGenesis
                 = CreateBlock ?bc [demoCoinbaseTxn ''alice'' ''First transaction in Blockchain''] []"
    by (simp add: demoService_def aliceGenesis_def)
  have wr: "repoCreateBlock (blockchainRepo ?bc) (Hash aliceGenesis)
                 (ToBlockBytes ?bc aliceGenesis) emptyStore
                 = (Inr (Hash aliceGenesis), aliceStore)"
    by (simp add: demo_defs)
  have factory: "blockFactoryContract ?bc"
    by (simp add: blockFactoryContract_def demoService_def demoBlock_def)
  have acks: "storeBlockAcks ?bc"
    by (auto simp: storeBlockAcks_def demoService_def memRepo_def memCreateBlock_def noFaults_def)
  have codec: "codecRoundTrip ?bc aliceGenesis"
    by (simp add: codecRoundTrip_def demo_defs)
  from CreateBlockchain_creation [OF lookup coinbase block wr factory acks codec]
  have "Transactions aliceGenesis = [demoCoinbaseTxn ''alice'' ''First transaction in Blockchain'']
        \<and> PrevHash aliceGenesis = []
        \<and> CreateBlockchain ?bc ''alice'' emptyStore = ((Some aliceGenesis, False, None), aliceStore)"
    by blast
  with lookup factory acks codec show ?thesis by blast
qed

text \<open>
  C8. When the genesis lookup succeeds, \<^verbatim>\<open>CreateBlockchain\<close> returns the block found, the
  flag telling whether its previous hash is empty, no error and the store as it was; and
  the previous hash of a block the lookup returns without error is always empty, so the
  flag is true.
\<close>

theorem CreateBlockchain_found:
  assumes "GetGenesisBlock bc s = (g, None)"
  shows "CreateBlockchain bc to s = ((Some g, PrevHash g = [], None), s) \<and> PrevHash g = []"
  using assms GetGenesisBlock_found_PrevHash [OF assms]
  by (simp add: CreateBlockchain_def)

theorem CreateBlockchain_found_witness:
  "GetGenesisBlock (demoService noFaults 2 [aliceGenesis]) aliceStore = (aliceGenesis, None) \<and>
   CreateBlockchain (demoService noFaults 2 [aliceGenesis]) ''bob'' aliceStore
     = ((Some aliceGenesis, True, None), aliceStore)"
proof -
  have h: "GetGenesisBlock (demoService noFaults 2 [aliceGenesis]) aliceStore = (aliceGenesis, None)"
    by (simp add: GetGenesisBlock_def demo_defs)
  show ?thesis
    using h CreateBlockchain_found [OF h, of "''bob''"] by simp
qed




section \<open>Reading the chain\<close>

text \<open>
  C4. When the enumeration succeeds, \<^verbatim>\<open>GetBlockchain\<close> returns without error the decoded
  persisted blocks, each as often as it was enumerated, ordered by timestamp from the
  latest to the earliest. If the persisted blocks are those of a chain whose timestamps
  strictly increase, the result is that chain read backwards, so its first block, the
  genesis block, comes last.
\<close>

theorem GetBlockchain_ordering:
  assumes "repoGetBlockchain (blockchainRepo bc) s = Inr persisted"
  shows "\<exists>result. GetBlockchain bc s = (result, None)
           \<and> mset result = mset (map (ToBlockStructure bc) persisted)
           \<and> sorted_wrt (\<lambda>b b'. Timestamp b \<ge> Timestamp b') result
           \<and> (\<forall>chain. sorted_wrt (<) (map Timestamp chain)
                       \<and> mset (map (ToBlockStructure bc) persisted) = mset chain
                 \<longrightarrow> result = rev chain \<and> (chain \<noteq> [] \<longrightarrow> last result = hd chain))"
proof -
  let ?all = "map (ToBlockStructure bc) persisted"
  let ?result = "sortSlice (\<lambda>bi bj. Timestamp bi > Timestamp bj) ?all"
  have run: "GetBlockchain bc s = (?result, None)"
    using assms by (simp add: GetBlockchain_def)
  have perm: "mset ?result = mset ?all"
    by (rule mset_sortSlice)
  have desc: "sorted_wrt (\<lambda>b b'. Timestamp b \<ge> Timestamp b') ?result"
    by (rule sortSlice_descending)
  have genesis_last: "?result = rev chain \<and> (chain \<noteq> [] \<longrightarrow> last ?result = hd chain)"
    if "sorted_wrt (<) (map Timestamp chain)" and "mset ?all = mset chain" for chain
  proof -
    have "?result = rev chain"
      using that by (rule sortSlice_chain)
    then show ?thesis by (simp add: last_rev)
  qed
  from run perm desc genesis_last show ?thesis by blast
qed

theorem GetBlockchain_ordering_witness:
  "repoGetBlockchain (blockchainRepo (demoService noFaults 3 [aliceGenesis, bobBlock])) bobStore
     = Inr [Hash aliceGenesis, Hash bobBlock]
   \<and> sorted_wrt (<) (map Timestamp [aliceGenesis, bobBlock])
   \<and> GetBlockchain (demoService noFaults 3 [aliceGenesis, bobBlock]) bobStore
       = ([bobBlock, aliceGenesis], None)
   \<and> last [bobBlock, aliceGenesis] = aliceGenesis"
proof -
  let ?bc = "demoService noFaults 3 [aliceGenesis, bobBlock]"
  have enum: "repoGetBlockchain (blockchainRepo ?bc) bobStore
                = Inr [Hash aliceGenesis, Hash bobBlock]"
    by (simp add: demo_defs bobStore_def)
  have increasing: "sorted_wrt (<) (map Timestamp [aliceGenesis, bobBlock])"
    by (simp add: demo_defs bobBlock_def)
  have decoded: "mset (map (ToBlockStructure ?bc) [Hash aliceGenesis, Hash bobBlock])
                   = mset [aliceGenesis, bobBlock]"
    by (simp add: demo_defs bobBlock_def)
  from GetBlockchain_ordering [OF enum] obtain result where
    run: "GetBlockchain ?bc bobStore = (result, None)" and
    chains: "\<forall>chain. sorted_wrt (<) (map Timestamp chain)
                 \<and> mset (map (ToBlockStructure ?bc) [Hash aliceGenesis, Hash bobBlock]) = mset chain
               \<longrightarrow> result = rev chain \<and> (chain \<noteq> [] \<longrightarrow> last result = hd chain)"
    by blast
  from chains increasing decoded have "result = rev [aliceGenesis, bobBlock]"
    by blast
  with run enum increasing show ?thesis by simp
qed




text \<open>
  C9. Two enumerations of the same persisted blocks in different orders, decoded by the
  same codec, give the same result of \<^verbatim>\<open>GetGenesisBlock\<close> when at most one of the
  decoded blocks has an empty previous hash.
\<close>

theorem GetGenesisBlock_order_independent:
  assumes "repoGetBlockchain (blockchainRepo bc) s = Inr persisted"
      and "repoGetBlockchain (blockchainRepo bc') s' = Inr persisted'"
      and "mset persisted' = mset persisted"
      and "ToBlockStructure bc' = ToBlockStructure bc"
      and "length (filter (\<lambda>b. PrevHash b = []) (map (ToBlockStructure bc) persisted)) \<le> 1"
  shows "GetGenesisBlock bc' s' = GetGenesisBlock bc s"
proof -
  let ?P = "\<lambda>b. PrevHash b = []"
  let ?all = "map (ToBlockStructure bc) persisted"
  let ?all' = "map (ToBlockStructure bc) persisted'"
  have "mset (filter ?P ?all) = mset (filter ?P ?all')"
    using assms(3) by (metis mset_filter mset_map)
  then have "filter ?P ?all = filter ?P ?all'"
    using assms(5) by (rule short_lists_same_mset)
  then have "find ?P ?all' = find ?P ?all"
    by (simp add: find_filter)
  then have "genesisLoop (ToBlockStructure bc) zeroBlock persisted'
               = genesisLoop (ToBlockStructure bc) zeroBlock persisted"
    by (simp add: genesisLoop_find)
  then show ?thesis
    using assms(1,2,4) by (simp add: GetGenesisBlock_def)
qed

theorem GetGenesisBlock_order_independent_witness:
  "repoGetBlockchain (blockchainRepo (demoService noFaults 3 [aliceGenesis, bobBlock])) bobStore
     = Inr [Hash aliceGenesis, Hash bobBlock]
   \<and> repoGetBlockchain (blockchainRepo (demoService noFaults 3 [aliceGenesis, bobBlock]))
         bobStoreReversed
       = Inr [Hash bobBlock, Hash aliceGenesis]
   \<and> GetGenesisBlock (demoService noFaults 3 [aliceGenesis, bobBlock]) bobStoreReversed
       = GetGenesisBlock (demoService noFaults 3 [aliceGenesis, bobBlock]) bobStore
   \<and> GetGenesisBlock (demoService noFaults 3 [aliceGenesis, bobBlock]) bobStore
       = (aliceGenesis, None)"
proof -
  let ?bc = "demoService noFaults 3 [aliceGenesis, bobBlock]"
  have enum: "repoGetBlockchain (blockchainRepo ?bc) bobStore
                = Inr [Hash aliceGenesis, Hash bobBlock]"
    by (simp add: demo_defs bobStore_def)
  have enum': "repoGetBlockchain (blockchainRepo ?bc) bobStoreReversed
                = Inr [Hash bobBlock, Hash aliceGenesis]"
    by (simp add: demo_defs bobStoreReversed_def)
  have perm: "mset [Hash bobBlock, Hash aliceGenesis] = mset [Hash aliceGenesis, Hash bobBlock]"
    by simp
  have one: "length (filter (\<lambda>b. PrevHash b = [])
                (map (ToBlockStructure ?bc) [Hash aliceGenesis, Hash bobBlock])) \<le> 1"
    by (simp add: demo_defs bobBlock_def)
  have same: "GetGenesisBlock ?bc bobStoreReversed = GetGenesisBlock ?bc bobStore"
    using enum enum' perm refl one by (rule GetGenesisBlock_order_independent)
  have "GetGenesisBlock ?bc bobStore = (aliceGenesis, None)"
    by (simp add: GetGenesisBlock_def demo_defs bobStore_def bobBlock_def)
  with enum enum' same show ?thesis by simp
qed

end
